theory Spec2Isabelle
  imports Main "HOL-Library.AList"
begin

section \<open>Plugin state (src/Components/TabContent.js, function plugin)\<close>

text \<open>
  The plugin keeps one mutable object \<open>state\<close>. Only the fields that the quota monitor and
  the link handlers read or write are modelled. Times are milliseconds since the epoch and
  minutes are whole numbers, both as \<open>int\<close>.

  \<open>state.quotaState[allow2ChildId]\<close> is an object with three number fields; linkChild and
  the monitor are its only writers and always write all three.
\<close>

record quota_entry =
  lastSyncTime :: int
  lastSyncMinutes :: int
  allow2Minutes :: int

record plugin_settings =
  syncInterval :: int
  aggressiveSyncThreshold :: int

text \<open>
  \<open>childLinks\<close> is the object msChildId -> allow2ChildId. The monitor walks it with
  \<open>Object.entries\<close>, so it is an association list (one pair per key, in iteration order);
  \<open>quotaState\<close> is only ever looked up by key, so it is a map.
\<close>

record plugin_state =
  authenticated :: bool
  childLinks :: "(string \<times> string) list"
  quotaState :: "string \<rightharpoonup> quota_entry"
  settings :: plugin_settings
  lastSync :: "int option"

section \<open>determineSyncStrategy\<close>

text \<open>
  \<open>Date.now()\<close> is the parameter \<open>now\<close>. The two defaults are JavaScript's \<open>||\<close>:
  \<open>quotaState?.allow2Minutes || newMinutes\<close> takes \<open>newMinutes\<close> when the entry is missing
  and also when the stored number is 0 (0 is falsy); \<open>quotaState?.lastSyncTime || 0\<close> is the
  stored number, or 0 when the entry is missing.
\<close>

definition oldMinutes :: "plugin_state \<Rightarrow> string \<Rightarrow> int \<Rightarrow> int" where
  "oldMinutes st allow2ChildId newMinutes =
     (case quotaState st allow2ChildId of
        None \<Rightarrow> newMinutes
      | Some q \<Rightarrow> if allow2Minutes q = 0 then newMinutes else allow2Minutes q)"

definition lastSyncOf :: "plugin_state \<Rightarrow> string \<Rightarrow> int" where
  "lastSyncOf st allow2ChildId =
     (case quotaState st allow2ChildId of
        None \<Rightarrow> 0
      | Some q \<Rightarrow> if lastSyncTime q = 0 then 0 else lastSyncTime q)"

definition aggressiveInterval :: int where
  "aggressiveInterval = 600000"

definition determineSyncStrategy :: "plugin_state \<Rightarrow> string \<Rightarrow> int \<Rightarrow> int \<Rightarrow> bool" where
  "determineSyncStrategy st allow2ChildId newMinutes now =
     (if newMinutes > oldMinutes st allow2ChildId newMinutes then True
      else if newMinutes = 0 \<and> oldMinutes st allow2ChildId newMinutes > 0 then True
      else if newMinutes < aggressiveSyncThreshold (settings st)
              \<and> now - lastSyncOf st allow2ChildId \<ge> aggressiveInterval then True
      else if now - lastSyncOf st allow2ChildId \<ge> syncInterval (settings st) then True
      else False)"

text \<open>
  Each returning branch of the source writes its own line to the console before
  \<open>return true\<close>. \<open>syncRule\<close> is the same chain of tests, returning which line was
  written.
\<close>

datatype sync_rule = QuotaIncreased | QuotaExhausted | AggressiveSync | NormalSync | NoSync

definition syncRule :: "plugin_state \<Rightarrow> string \<Rightarrow> int \<Rightarrow> int \<Rightarrow> sync_rule" where
  "syncRule st allow2ChildId newMinutes now =
     (if newMinutes > oldMinutes st allow2ChildId newMinutes then QuotaIncreased
      else if newMinutes = 0 \<and> oldMinutes st allow2ChildId newMinutes > 0 then QuotaExhausted
      else if newMinutes < aggressiveSyncThreshold (settings st)
              \<and> now - lastSyncOf st allow2ChildId \<ge> aggressiveInterval then AggressiveSync
      else if now - lastSyncOf st allow2ChildId \<ge> syncInterval (settings st) then NormalSync
      else NoSync)"

text \<open>The state \<open>onLoad\<close> installs when nothing was persisted.\<close>

definition defaultSettings :: plugin_settings where
  "defaultSettings = \<lparr>syncInterval = 600000, aggressiveSyncThreshold = 30\<rparr>"

definition initialState :: plugin_state where
  "initialState = \<lparr>authenticated = False, childLinks = [], quotaState = Map.empty,
     settings = defaultSettings, lastSync = None\<rparr>"

section \<open>MicrosoftFamilyService (src/services/MicrosoftFamilyService.js)\<close>

text \<open>
  Every \<open>throw\<close> of the service is a value \<open>Inl\<close>. \<open>ApiRequestFailed\<close> is the error
  \<open>apiRequest\<close> raises when \<open>fetch\<close> fails or the response is not ok (it carries the
  status); \<open>QuotaSourceFailed\<close> is an exception of \<open>context.allow2.getQuota\<close>.
\<close>

datatype error = NotAuthenticated | ApiRequestFailed nat | QuotaSourceFailed

record screen_time =
  childId :: string
  enabled :: bool
  dailyLimit :: int
  currentUsage :: int
  remaining_st :: int
  schedule :: string
  lastUpdated :: int

record cache_entry =
  data :: screen_time
  timestamp :: int

text \<open>
  The fields of the service object that the three modelled methods use; \<open>screenTime\<close> is
  \<open>this.cache.screenTime\<close>, the Map childId -> (data, timestamp).
\<close>

record service =
  accessToken :: "string option"
  tokenExpiry :: "int option"
  familyId :: "string option"
  cacheDuration :: int
  screenTime :: "string \<rightharpoonup> cache_entry"

text \<open>
  The body of a response of the backend: a JSON object whose fields may be missing. The
  body of the request names the endpoint and carries the data the method sends.
\<close>

record settings_response =
  enabled_resp :: "bool option"
  dailyLimitMinutes :: "int option"
  todayUsageMinutes :: "int option"
  schedule_resp :: "string option"

datatype request =
    PostGetScreenTimeSettings string "string option"
  | PostSetScreenTimeLimit string "string option" int bool

type_synonym remote = "request \<Rightarrow> error + settings_response"

record limit_result =
  success :: bool
  childId_res :: string
  dailyLimit_res :: int

text \<open>
  \<open>this.accessToken && this.tokenExpiry && Date.now() < this.tokenExpiry\<close>: a missing or
  empty token and a missing or zero expiry are falsy.
\<close>

definition isAuthenticated :: "service \<Rightarrow> int \<Rightarrow> bool" where
  "isAuthenticated svc now =
     (case accessToken svc of
        None \<Rightarrow> False
      | Some tok \<Rightarrow>
          (case tokenExpiry svc of
             None \<Rightarrow> False
           | Some expiry \<Rightarrow> tok \<noteq> [] \<and> expiry \<noteq> 0 \<and> now < expiry))"

definition apiRequest :: "remote \<Rightarrow> int \<Rightarrow> service \<Rightarrow> request \<Rightarrow> error + settings_response" where
  "apiRequest rem now svc req =
     (if \<not> isAuthenticated svc now then Inl NotAuthenticated else rem req)"

text \<open>The object \<open>getScreenTime\<close> builds from a response; \<open>x || d\<close> on a missing field is \<open>d\<close>.\<close>

definition orElse :: "'a option \<Rightarrow> 'a \<Rightarrow> 'a" where
  "orElse x d = (case x of None \<Rightarrow> d | Some v \<Rightarrow> v)"

definition buildScreenTime :: "string \<Rightarrow> settings_response \<Rightarrow> int \<Rightarrow> screen_time" where
  "buildScreenTime cid response now =
     \<lparr>childId = cid,
      enabled = orElse (enabled_resp response) False,
      dailyLimit = orElse (dailyLimitMinutes response) 0,
      currentUsage = orElse (todayUsageMinutes response) 0,
      remaining_st = max 0 (orElse (dailyLimitMinutes response) 0 - orElse (todayUsageMinutes response) 0),
      schedule = orElse (schedule_resp response) ''{}'',
      lastUpdated = now\<rparr>"

definition getScreenTime ::
  "remote \<Rightarrow> int \<Rightarrow> service \<Rightarrow> string \<Rightarrow> bool \<Rightarrow> error + (screen_time \<times> service)" where
  "getScreenTime rem now svc cid forceRefresh =
     (if \<not> isAuthenticated svc now then Inl NotAuthenticated
      else
        (case (if forceRefresh then None else screenTime svc cid) of
           Some cached \<Rightarrow>
             if now - timestamp cached < cacheDuration svc then Inr (data cached, svc)
             else
               (case apiRequest rem now svc (PostGetScreenTimeSettings cid (familyId svc)) of
                  Inl e \<Rightarrow> Inl e
                | Inr response \<Rightarrow>
                    Inr (buildScreenTime cid response now,
                         svc\<lparr>screenTime := (screenTime svc)
                            (cid \<mapsto> \<lparr>data = buildScreenTime cid response now, timestamp = now\<rparr>)\<rparr>))
         | None \<Rightarrow>
             (case apiRequest rem now svc (PostGetScreenTimeSettings cid (familyId svc)) of
                Inl e \<Rightarrow> Inl e
              | Inr response \<Rightarrow>
                  Inr (buildScreenTime cid response now,
                       svc\<lparr>screenTime := (screenTime svc)
                          (cid \<mapsto> \<lparr>data = buildScreenTime cid response now, timestamp = now\<rparr>)\<rparr>))))"

definition setScreenTimeLimit ::
  "remote \<Rightarrow> int \<Rightarrow> service \<Rightarrow> string \<Rightarrow> int \<Rightarrow> error + (limit_result \<times> service)" where
  "setScreenTimeLimit rem now svc cid minutes =
     (if \<not> isAuthenticated svc now then Inl NotAuthenticated
      else
        (case apiRequest rem now svc (PostSetScreenTimeLimit cid (familyId svc) minutes (minutes > 0)) of
           Inl e \<Rightarrow> Inl e
         | Inr response \<Rightarrow>
             Inr (\<lparr>success = True, childId_res = cid, dailyLimit_res = minutes\<rparr>,
                  svc\<lparr>screenTime := (screenTime svc)(cid := None)\<rparr>)))"

section \<open>checkAndEnforceQuotas\<close>

text \<open>
  What one run of the monitor meets outside the plugin: the answers of
  \<open>context.allow2.getQuota\<close> (an exception, nothing, or a quota), the backend, and the clock.
  \<open>Date.now()\<close> is read once per child (\<open>clock\<close>, by msChildId), once for the
  authentication test at the start and once for \<open>state.lastSync\<close> at the end.
\<close>

record quota =
  allowed :: bool
  remaining :: int

record env =
  getQuota :: "string \<Rightarrow> error + quota option"
  backend :: remote
  clock :: "string \<Rightarrow> int"
  tickStart :: int
  tickEnd :: int

text \<open>
  The run returns the new state and service together with what it did, in order: calls of
  \<open>getQuota\<close>, calls of \<open>familyService.setScreenTimeLimit\<close> (the only way a run reaches the
  backend), \<open>context.configurationUpdate\<close>, \<open>context.notification\<close> and the
  \<open>console.error\<close> of the per-child \<open>catch\<close>.
\<close>

datatype notice = LowScreenTime | ScreenTimeExhausted

datatype event =
    GetQuotaCall string
  | SetLimitCall string int
  | ConfigurationUpdate
  | Notification notice string int
  | ErrorLogged string error

definition remainingMinutes :: "quota \<Rightarrow> int" where
  "remainingMinutes q = (if allowed q \<and> remaining q > 0 then remaining q div 60 else 0)"

definition notifications :: "string \<Rightarrow> int \<Rightarrow> event list" where
  "notifications msChildId minutes =
     (if minutes < 10 \<and> minutes > 0 then [Notification LowScreenTime msChildId minutes]
      else if minutes = 0 then [Notification ScreenTimeExhausted msChildId minutes]
      else [])"

text \<open>The body of the \<open>for\<close> loop, with its \<open>try\<close>/\<open>catch\<close>, for one entry of childLinks.\<close>

fun enforceChild ::
  "env \<Rightarrow> string \<times> string \<Rightarrow> plugin_state \<times> service \<Rightarrow> (plugin_state \<times> service) \<times> event list" where
  "enforceChild e (msChildId, allow2ChildId) (st, svc) =
     (case getQuota e allow2ChildId of
        Inl err \<Rightarrow> ((st, svc), [GetQuotaCall allow2ChildId, ErrorLogged msChildId err])
      | Inr None \<Rightarrow> ((st, svc), [GetQuotaCall allow2ChildId])
      | Inr (Some q) \<Rightarrow>
          if determineSyncStrategy st allow2ChildId (remainingMinutes q) (clock e msChildId) then
            (case setScreenTimeLimit (backend e) (clock e msChildId) svc msChildId (remainingMinutes q) of
               Inl err \<Rightarrow>
                 ((st, svc),
                  [GetQuotaCall allow2ChildId, SetLimitCall msChildId (remainingMinutes q),
                   ErrorLogged msChildId err])
             | Inr (res, svc') \<Rightarrow>
                 ((st\<lparr>quotaState := (quotaState st)
                       (allow2ChildId \<mapsto>
                          \<lparr>lastSyncTime = clock e msChildId,
                           lastSyncMinutes = remainingMinutes q,
                           allow2Minutes = remainingMinutes q\<rparr>)\<rparr>, svc'),
                  [GetQuotaCall allow2ChildId, SetLimitCall msChildId (remainingMinutes q),
                   ConfigurationUpdate] @ notifications msChildId (remainingMinutes q)))
          else ((st, svc), [GetQuotaCall allow2ChildId]))"

fun enforceAll ::
  "env \<Rightarrow> (string \<times> string) list \<Rightarrow> plugin_state \<times> service \<Rightarrow> (plugin_state \<times> service) \<times> event list" where
  "enforceAll e [] w = (w, [])"
| "enforceAll e (l # ls) w =
     (case enforceChild e l w of
        (w1, ev1) \<Rightarrow> (case enforceAll e ls w1 of (w2, ev2) \<Rightarrow> (w2, ev1 @ ev2)))"

definition checkAndEnforceQuotas ::
  "env \<Rightarrow> plugin_state \<Rightarrow> service \<Rightarrow> (plugin_state \<times> service) \<times> event list" where
  "checkAndEnforceQuotas e st svc =
     (if \<not> authenticated st \<or> \<not> isAuthenticated svc (tickStart e) then ((st, svc), [])
      else
        (case enforceAll e (childLinks st) (st, svc) of
           ((st', svc'), ev) \<Rightarrow>
             ((st'\<lparr>lastSync := Some (tickEnd e)\<rparr>, svc'), ev @ [ConfigurationUpdate])))"

section \<open>The monitor timer and the msFamily.syncNow handler\<close>

text \<open>
  The closure of \<open>plugin\<close>: the state, the service and \<open>quotaMonitor\<close>, the handle of the
  interval timer (set or null). The handlers are given the state object that onLoad made;
  it is taken to be the closure's state still. \<open>monitorTick\<close> is the callback given to \<open>setInterval\<close>;
  \<open>startQuotaMonitor\<close> installs it and runs one check at once.
\<close>

record plugin =
  state :: plugin_state
  familyService :: service
  quotaMonitor :: bool

definition monitorTick :: "env \<Rightarrow> plugin \<Rightarrow> plugin \<times> event list" where
  "monitorTick e p =
     (case checkAndEnforceQuotas e (state p) (familyService p) of
        ((st', svc'), ev) \<Rightarrow> (p\<lparr>state := st', familyService := svc'\<rparr>, ev))"

definition startQuotaMonitor :: "env \<Rightarrow> plugin \<Rightarrow> plugin \<times> event list" where
  "startQuotaMonitor e p =
     (if quotaMonitor p then (p, [])
      else
        (case checkAndEnforceQuotas e (state p) (familyService p) of
           ((st', svc'), ev) \<Rightarrow> (p\<lparr>state := st', familyService := svc', quotaMonitor := True\<rparr>, ev)))"

definition stopQuotaMonitor :: "plugin \<Rightarrow> plugin" where
  "stopQuotaMonitor p = (if quotaMonitor p then p\<lparr>quotaMonitor := False\<rparr> else p)"

text \<open>
  The handler answers \<open>[null, {success: true, syncTime: state.lastSync}]\<close>; the answer is
  the third component.
\<close>

definition syncNow :: "env \<Rightarrow> plugin \<Rightarrow> plugin \<times> event list \<times> (bool \<times> int option)" where
  "syncNow e p =
     (case checkAndEnforceQuotas e (state p) (familyService p) of
        ((st', svc'), ev) \<Rightarrow> (p\<lparr>state := st', familyService := svc'\<rparr>, ev, (True, lastSync st')))"

section \<open>The msFamily.linkChild and msFamily.unlinkChild handlers\<close>

text \<open>
  Assigning \<open>state.childLinks[msChildId]\<close> replaces the value of a key that is present and
  adds the pair otherwise; \<open>delete\<close> removes the key. \<open>if (allow2ChildId)\<close> is false when
  the key was not linked and when the linked id is the empty string.
\<close>

definition zeroQuota :: quota_entry where
  "zeroQuota = \<lparr>lastSyncTime = 0, lastSyncMinutes = 0, allow2Minutes = 0\<rparr>"

definition linkChild :: "plugin_state \<Rightarrow> string \<Rightarrow> string \<Rightarrow> plugin_state" where
  "linkChild st msChildId allow2ChildId =
     st\<lparr>childLinks := AList.update msChildId allow2ChildId (childLinks st),
        quotaState := (quotaState st)(allow2ChildId \<mapsto> zeroQuota)\<rparr>"

definition unlinkChild :: "plugin_state \<Rightarrow> string \<Rightarrow> plugin_state" where
  "unlinkChild st msChildId =
     (case map_of (childLinks st) msChildId of
        None \<Rightarrow> st\<lparr>childLinks := AList.delete msChildId (childLinks st)\<rparr>
      | Some allow2ChildId \<Rightarrow>
          if allow2ChildId = [] then st\<lparr>childLinks := AList.delete msChildId (childLinks st)\<rparr>
          else st\<lparr>childLinks := AList.delete msChildId (childLinks st),
                  quotaState := (quotaState st)(allow2ChildId := None)\<rparr>)"

datatype link_op = LinkChild string string | UnlinkChild string

fun applyOp :: "plugin_state \<Rightarrow> link_op \<Rightarrow> plugin_state" where
  "applyOp st (LinkChild msChildId allow2ChildId) = linkChild st msChildId allow2ChildId"
| "applyOp st (UnlinkChild msChildId) = unlinkChild st msChildId"

fun applyOps :: "plugin_state \<Rightarrow> link_op list \<Rightarrow> plugin_state" where
  "applyOps st [] = st"
| "applyOps st (x # xs) = applyOps (applyOp st x) xs"

text \<open>
  The two halves of "each linked child has a quota entry and no quota entry outlives its
  link".
\<close>

definition linkedHaveState :: "plugin_state \<Rightarrow> bool" where
  "linkedHaveState st = (\<forall>(ms, a) \<in> set (childLinks st). quotaState st a \<noteq> None)"

definition noOrphanState :: "plugin_state \<Rightarrow> bool" where
  "noOrphanState st = (dom (quotaState st) \<subseteq> snd ` set (childLinks st))"

text \<open>
  A link request is one-to-one when its allow2ChildId is not empty, no other msChildId is
  linked to it, and the msChildId is either not linked or already linked to that same id.
\<close>

definition oneToOneLink :: "plugin_state \<Rightarrow> string \<Rightarrow> string \<Rightarrow> bool" where
  "oneToOneLink st msChildId allow2ChildId =
     (allow2ChildId \<noteq> []
      \<and> (\<forall>(ms, a) \<in> set (childLinks st). a = allow2ChildId \<longrightarrow> ms = msChildId)
      \<and> (case map_of (childLinks st) msChildId of None \<Rightarrow> True | Some a \<Rightarrow> a = allow2ChildId))"

fun oneToOneOps :: "plugin_state \<Rightarrow> link_op list \<Rightarrow> bool" where
  "oneToOneOps st [] = True"
| "oneToOneOps st (LinkChild ms a # xs) =
     (oneToOneLink st ms a \<and> oneToOneOps (linkChild st ms a) xs)"
| "oneToOneOps st (UnlinkChild ms # xs) = oneToOneOps (unlinkChild st ms) xs"

text \<open>
  The invariant behind the two halves: childLinks has one pair per key, no two keys share
  an allow2ChildId, no linked id is empty, and the keys of quotaState are exactly the
  linked allow2ChildIds.
\<close>

definition consistentLinks :: "plugin_state \<Rightarrow> bool" where
  "consistentLinks st =
     (distinct (map fst (childLinks st))
      \<and> (\<forall>ms ms' a. map_of (childLinks st) ms = Some a \<and> map_of (childLinks st) ms' = Some a
            \<longrightarrow> ms = ms')
      \<and> (\<forall>ms. map_of (childLinks st) ms \<noteq> Some [])
      \<and> dom (quotaState st) = ran (map_of (childLinks st)))"

section \<open>Concrete inputs\<close>

text \<open>
  One linked child (ms1 -> a1) whose last push was \<open>m\<close> minutes at time \<open>t\<close>, a service
  holding a token that is valid until 9000000, and a run at time \<open>now\<close> in which the quota
  source reports \<open>secs\<close> seconds and the backend accepts every request.
\<close>

definition emptyResponse :: settings_response where
  "emptyResponse = \<lparr>enabled_resp = None, dailyLimitMinutes = None, todayUsageMinutes = None,
     schedule_resp = None\<rparr>"

definition exampleService :: service where
  "exampleService = \<lparr>accessToken = Some ''token'', tokenExpiry = Some 9000000,
     familyId = Some ''family'', cacheDuration = 300000, screenTime = Map.empty\<rparr>"

definition exampleState :: "int \<Rightarrow> int \<Rightarrow> plugin_state" where
  "exampleState t m = \<lparr>authenticated = True, childLinks = [(''ms1'', ''a1'')],
     quotaState = [''a1'' \<mapsto> \<lparr>lastSyncTime = t, lastSyncMinutes = m, allow2Minutes = m\<rparr>],
     settings = defaultSettings, lastSync = None\<rparr>"

definition exampleEnv :: "int \<Rightarrow> int \<Rightarrow> env" where
  "exampleEnv secs now = \<lparr>getQuota = (\<lambda>a. Inr (Some \<lparr>allowed = True, remaining = secs\<rparr>)),
     backend = (\<lambda>r. Inr emptyResponse), clock = (\<lambda>ms. now), tickStart = now, tickEnd = now\<rparr>"

text \<open>
  The state after a run at 2000000 that found the quota of a1 exhausted (45 minutes had
  been pushed at 1000000) and pushed 0.
\<close>

definition exhaustedState :: plugin_state where
  "exhaustedState =
     fst (fst (checkAndEnforceQuotas (exampleEnv 0 2000000) (exampleState 1000000 45) exampleService))"

text \<open>The closure of a plugin whose monitor timer is running.\<close>

definition examplePlugin :: plugin where
  "examplePlugin = \<lparr>state = exampleState 1000000 45, familyService = exampleService,
     quotaMonitor = True\<rparr>"

text \<open>
  A backend that reports a daily limit of \<open>d\<close> minutes with 10 minutes used, and a service
  that cached the answer of such a backend for ms1 at 1000000 when the limit was 60.
\<close>

definition limitBackend :: "int \<Rightarrow> remote" where
  "limitBackend d = (\<lambda>r. Inr \<lparr>enabled_resp = Some True, dailyLimitMinutes = Some d,
     todayUsageMinutes = Some 10, schedule_resp = None\<rparr>)"

definition cachedService :: service where
  "cachedService = exampleService\<lparr>screenTime :=
     [''ms1'' \<mapsto> \<lparr>data = \<lparr>childId = ''ms1'', enabled = True, dailyLimit = 60, currentUsage = 10,
        remaining_st = 50, schedule = ''{}'', lastUpdated = 1000000\<rparr>, timestamp = 1000000\<rparr>]\<rparr>"

text \<open>
  Two linked children. The quota source reports 3000 seconds (50 minutes) for everyone;
  the backend answers 500 to every request about ms1 and accepts the others.
\<close>

definition failingEnv :: env where
  "failingEnv = \<lparr>getQuota = (\<lambda>a. Inr (Some \<lparr>allowed = True, remaining = 3000\<rparr>)),
     backend = (\<lambda>r. case r of
        PostSetScreenTimeLimit c f m en \<Rightarrow>
          if c = ''ms1'' then Inl (ApiRequestFailed 500) else Inr emptyResponse
      | PostGetScreenTimeSettings c f \<Rightarrow> Inr emptyResponse),
     clock = (\<lambda>ms. 1001000), tickStart = 1001000, tickEnd = 1001000\<rparr>"

definition twoChildState :: "string \<Rightarrow> plugin_state" where
  "twoChildState a2 = \<lparr>authenticated = True, childLinks = [(''ms1'', ''a1''), (''ms2'', a2)],
     quotaState = [''a1'' \<mapsto> \<lparr>lastSyncTime = 1000000, lastSyncMinutes = 45, allow2Minutes = 45\<rparr>,
                   a2 \<mapsto> \<lparr>lastSyncTime = 1000000, lastSyncMinutes = 45, allow2Minutes = 45\<rparr>],
     settings = defaultSettings, lastSync = None\<rparr>"

section \<open>Evaluating the concrete inputs\<close>

lemmas example_defs = emptyResponse_def exampleService_def exampleState_def exampleEnv_def
  defaultSettings_def

lemmas tick_defs = checkAndEnforceQuotas_def isAuthenticated_def determineSyncStrategy_def
  oldMinutes_def lastSyncOf_def aggressiveInterval_def remainingMinutes_def
  setScreenTimeLimit_def apiRequest_def notifications_def

lemma exhaustedState_eq:
  "exhaustedState = (exampleState 1000000 45)
     \<lparr>quotaState := [''a1'' \<mapsto> \<lparr>lastSyncTime = 2000000, lastSyncMinutes = 0, allow2Minutes = 0\<rparr>],
      lastSync := Some 2000000\<rparr>"
  by (simp add: exhaustedState_def tick_defs example_defs)

section \<open>Properties of the decision function\<close>

lemma determineSyncStrategy_syncRule:
  "determineSyncStrategy st a n now \<longleftrightarrow> syncRule st a n now \<noteq> NoSync"
  unfolding determineSyncStrategy_def syncRule_def by auto

lemma oldMinutes_stored_nonzero:
  "quotaState st a = Some q \<Longrightarrow> allow2Minutes q \<noteq> 0 \<Longrightarrow> oldMinutes st a n = allow2Minutes q"
  by (simp add: oldMinutes_def)

lemma oldMinutes_stored_zero:
  "quotaState st a = Some q \<Longrightarrow> allow2Minutes q = 0 \<Longrightarrow> oldMinutes st a n = n"
  by (simp add: oldMinutes_def)

lemma lastSyncOf_stored:
  "quotaState st a = Some q \<Longrightarrow> lastSyncOf st a = lastSyncTime q"
  by (simp add: lastSyncOf_def)

text \<open>
  The increase rule as the code has it: it fires for every stored value other than 0 (a
  stored 0 is taken for a missing value, see the section on the stored value 0).
\<close>

lemma increase_pushes_when_stored_nonzero:
  assumes "quotaState st a = Some q" and "allow2Minutes q \<noteq> 0" and "newMinutes > allow2Minutes q"
  shows "determineSyncStrategy st a newMinutes now"
proof -
  have "oldMinutes st a newMinutes = allow2Minutes q"
    using assms(1,2) by (rule oldMinutes_stored_nonzero)
  with assms(3) show ?thesis
    by (simp add: determineSyncStrategy_def)
qed

text \<open>
  C2. For every stored entry whose last pushed value is greater than 0, a new value of 0
  is pushed, whatever the stored push time, the current time and the settings are. The
  last pushed value is \<open>allow2Minutes\<close>, the field the decision reads; linkChild and the
  monitor always store the same number in \<open>lastSyncMinutes\<close>.
\<close>

theorem C2_exhaustion_pushes:
  assumes "quotaState st a = Some q" and "allow2Minutes q > 0"
  shows "determineSyncStrategy st a 0 now"
proof -
  have "oldMinutes st a 0 = allow2Minutes q"
    using assms by (simp add: oldMinutes_stored_nonzero)
  with assms(2) show ?thesis
    by (simp add: determineSyncStrategy_def)
qed

theorem C2_witness:
  "quotaState (exampleState 1000000 45) ''a1''
     = Some \<lparr>lastSyncTime = 1000000, lastSyncMinutes = 45, allow2Minutes = 45\<rparr>
   \<and> determineSyncStrategy (exampleState 1000000 45) ''a1'' 0 1000001"
proof -
  have h: "quotaState (exampleState 1000000 45) ''a1''
             = Some \<lparr>lastSyncTime = 1000000, lastSyncMinutes = 45, allow2Minutes = 45\<rparr>"
    by (simp add: exampleState_def)
  show ?thesis using h C2_exhaustion_pushes [OF h, of 1000001] by simp
qed

text \<open>
  C9. For every stored entry: when the new value equals the last pushed value, less than
  the normal interval has passed since the stored push time, and the new value is at least
  the aggressive threshold, nothing is pushed.
\<close>

theorem C9_steady_state_no_push:
  assumes "quotaState st a = Some q"
    and "newMinutes = allow2Minutes q"
    and "now - lastSyncTime q < syncInterval (settings st)"
    and "newMinutes \<ge> aggressiveSyncThreshold (settings st)"
  shows "\<not> determineSyncStrategy st a newMinutes now"
proof -
  have old: "oldMinutes st a newMinutes = newMinutes"
    using assms(1,2) by (simp add: oldMinutes_def)
  have last: "lastSyncOf st a = lastSyncTime q"
    using assms(1) by (rule lastSyncOf_stored)
  show ?thesis
    unfolding determineSyncStrategy_def old last using assms(3,4) by simp
qed

theorem C9_witness:
  "\<not> determineSyncStrategy (exampleState 1000000 45) ''a1'' 45 1001000"
proof -
  have h: "quotaState (exampleState 1000000 45) ''a1''
             = Some \<lparr>lastSyncTime = 1000000, lastSyncMinutes = 45, allow2Minutes = 45\<rparr>"
    by (simp add: exampleState_def)
  show ?thesis
    by (rule C9_steady_state_no_push [OF h]) (simp_all add: example_defs)
qed

text \<open>
  C1, at the input where the code departs from it. 45 minutes were pushed at 1000000; the
  run at 2000000 finds the quota exhausted, pushes 0 and stores 0. One second later the
  quota source reports 300 seconds, that is 5 minutes: 5 is greater than the last pushed
  value 0, yet the decision is not to push, and the run makes no call of
  setScreenTimeLimit.
\<close>

theorem C1_increase_after_exhaustion_not_pushed:
  "quotaState exhaustedState ''a1''
     = Some \<lparr>lastSyncTime = 2000000, lastSyncMinutes = 0, allow2Minutes = 0\<rparr>
   \<and> \<not> determineSyncStrategy exhaustedState ''a1'' 5 2001000
   \<and> snd (checkAndEnforceQuotas (exampleEnv 300 2001000) exhaustedState exampleService)
       = [GetQuotaCall ''a1'', ConfigurationUpdate]"
  by (simp add: exhaustedState_eq tick_defs example_defs)

text \<open>
  The run above was not skipped for lack of authentication: the state is authenticated and
  the token is valid at 2001000, so the missing push is the decision's doing.
\<close>

theorem C1_witness:
  "authenticated exhaustedState
   \<and> isAuthenticated exampleService (tickStart (exampleEnv 300 2001000))
   \<and> remainingMinutes \<lparr>allowed = True, remaining = 300\<rparr> = 5
   \<and> \<not> determineSyncStrategy exhaustedState ''a1'' 5 2001000
   \<and> SetLimitCall ''ms1'' 5
       \<notin> set (snd (checkAndEnforceQuotas (exampleEnv 300 2001000) exhaustedState exampleService))"
proof -
  have a: "authenticated exhaustedState
      \<and> isAuthenticated exampleService (tickStart (exampleEnv 300 2001000))
      \<and> remainingMinutes \<lparr>allowed = True, remaining = 300\<rparr> = 5"
    by (simp add: exhaustedState_eq isAuthenticated_def remainingMinutes_def example_defs)
  show ?thesis
    using a C1_increase_after_exhaustion_not_pushed by simp
qed

section \<open>One iteration of the monitor loop\<close>

lemma enforceChild_not_due:
  assumes "getQuota e a = Inr (Some q)"
    and "\<not> determineSyncStrategy st a (remainingMinutes q) (clock e ms)"
  shows "enforceChild e (ms, a) (st, svc) = ((st, svc), [GetQuotaCall a])"
  using assms by simp

lemma enforceChild_push_ok:
  assumes "getQuota e a = Inr (Some q)"
    and "determineSyncStrategy st a (remainingMinutes q) (clock e ms)"
    and "setScreenTimeLimit (backend e) (clock e ms) svc ms (remainingMinutes q) = Inr (r, svc')"
  shows "enforceChild e (ms, a) (st, svc) =
     ((st\<lparr>quotaState := (quotaState st)
           (a \<mapsto> \<lparr>lastSyncTime = clock e ms, lastSyncMinutes = remainingMinutes q,
                  allow2Minutes = remainingMinutes q\<rparr>)\<rparr>, svc'),
      [GetQuotaCall a, SetLimitCall ms (remainingMinutes q), ConfigurationUpdate]
        @ notifications ms (remainingMinutes q))"
  using assms by simp

lemma enforceChild_push_failed:
  assumes "getQuota e a = Inr (Some q)"
    and "determineSyncStrategy st a (remainingMinutes q) (clock e ms)"
    and "setScreenTimeLimit (backend e) (clock e ms) svc ms (remainingMinutes q) = Inl err"
  shows "enforceChild e (ms, a) (st, svc) =
     ((st, svc), [GetQuotaCall a, SetLimitCall ms (remainingMinutes q), ErrorLogged ms err])"
  using assms by simp

section \<open>Stored value 0\<close>

text \<open>
  C10. When the stored \<open>allow2Minutes\<close> of a child is 0, the decision takes the new value
  as the previous one: neither the increase rule nor the exhaustion rule fires, and the
  decision is exactly the disjunction of the aggressive and the normal interval tests.
  linkChild stores such an entry (with push time 0), so right after a link every
  \<open>now\<close> of at least the normal interval is due, through an interval rule; and a
  successful push stores the pushed value, so it stores such an entry when it pushed 0.
\<close>

theorem C10_zero_state_uses_intervals_only:
  "(quotaState st a = Some q \<and> allow2Minutes q = 0 \<longrightarrow>
      oldMinutes st a n = n
      \<and> syncRule st a n now \<noteq> QuotaIncreased
      \<and> syncRule st a n now \<noteq> QuotaExhausted
      \<and> (determineSyncStrategy st a n now \<longleftrightarrow>
           (n < aggressiveSyncThreshold (settings st) \<and> now - lastSyncTime q \<ge> aggressiveInterval)
           \<or> now - lastSyncTime q \<ge> syncInterval (settings st)))
   \<and> quotaState (linkChild st1 ms a) a = Some zeroQuota
   \<and> allow2Minutes zeroQuota = 0
   \<and> (now \<ge> syncInterval (settings st1) \<longrightarrow>
        determineSyncStrategy (linkChild st1 ms a) a n now
        \<and> (syncRule (linkChild st1 ms a) a n now = AggressiveSync
           \<or> syncRule (linkChild st1 ms a) a n now = NormalSync))
   \<and> (getQuota e a = Inr (Some qu)
        \<and> determineSyncStrategy st2 a (remainingMinutes qu) (clock e ms)
        \<and> setScreenTimeLimit (backend e) (clock e ms) svc ms (remainingMinutes qu) = Inr (r, svc') \<longrightarrow>
        quotaState (fst (fst (enforceChild e (ms, a) (st2, svc)))) a
          = Some \<lparr>lastSyncTime = clock e ms, lastSyncMinutes = remainingMinutes qu,
                   allow2Minutes = remainingMinutes qu\<rparr>)"
proof -
  have zero: "oldMinutes st a n = n
      \<and> syncRule st a n now \<noteq> QuotaIncreased
      \<and> syncRule st a n now \<noteq> QuotaExhausted
      \<and> (determineSyncStrategy st a n now \<longleftrightarrow>
           (n < aggressiveSyncThreshold (settings st) \<and> now - lastSyncTime q \<ge> aggressiveInterval)
           \<or> now - lastSyncTime q \<ge> syncInterval (settings st))"
    if "quotaState st a = Some q" and "allow2Minutes q = 0"
  proof -
    have old: "oldMinutes st a n = n"
      using that by (rule oldMinutes_stored_zero)
    have last: "lastSyncOf st a = lastSyncTime q"
      using that(1) by (rule lastSyncOf_stored)
    show ?thesis
      unfolding syncRule_def determineSyncStrategy_def old last by auto
  qed
  have linked: "quotaState (linkChild st1 ms a) a = Some zeroQuota"
    by (simp add: linkChild_def)
  have z: "allow2Minutes zeroQuota = 0" "lastSyncTime zeroQuota = 0"
    by (simp_all add: zeroQuota_def)
  have after_link: "determineSyncStrategy (linkChild st1 ms a) a n now
        \<and> (syncRule (linkChild st1 ms a) a n now = AggressiveSync
           \<or> syncRule (linkChild st1 ms a) a n now = NormalSync)"
    if "now \<ge> syncInterval (settings st1)"
  proof -
    have old: "oldMinutes (linkChild st1 ms a) a n = n"
      using linked z(1) by (rule oldMinutes_stored_zero)
    have last: "lastSyncOf (linkChild st1 ms a) a = 0"
      using lastSyncOf_stored [OF linked] z(2) by simp
    have s: "settings (linkChild st1 ms a) = settings st1"
      by (simp add: linkChild_def)
    show ?thesis
      unfolding syncRule_def determineSyncStrategy_def old last s using that by auto
  qed
  have pushed: "quotaState (fst (fst (enforceChild e (ms, a) (st2, svc)))) a
          = Some \<lparr>lastSyncTime = clock e ms, lastSyncMinutes = remainingMinutes qu,
                   allow2Minutes = remainingMinutes qu\<rparr>"
    if "getQuota e a = Inr (Some qu)"
       "determineSyncStrategy st2 a (remainingMinutes qu) (clock e ms)"
       "setScreenTimeLimit (backend e) (clock e ms) svc ms (remainingMinutes qu) = Inr (r, svc')"
    using enforceChild_push_ok [OF that] by simp
  show ?thesis
    using zero linked z(1) after_link pushed by blast
qed

theorem C10_witness:
  "(\<not> determineSyncStrategy exhaustedState ''a1'' 5 2001000)
   \<and> syncRule exhaustedState ''a1'' 5 2600000 = AggressiveSync
   \<and> determineSyncStrategy (linkChild initialState ''ms1'' ''a1'') ''a1'' 50 2600000
   \<and> quotaState (fst (fst (enforceChild (exampleEnv 0 2000000) (''ms1'', ''a1'')
        (exampleState 1000000 45, exampleService)))) ''a1''
       = Some \<lparr>lastSyncTime = 2000000, lastSyncMinutes = 0, allow2Minutes = 0\<rparr>"
proof -
  let ?q = "\<lparr>lastSyncTime = 2000000, lastSyncMinutes = 0, allow2Minutes = 0\<rparr>"
  have h1: "quotaState exhaustedState ''a1'' = Some ?q \<and> allow2Minutes ?q = 0"
    by (simp add: exhaustedState_eq)
  have h3: "syncInterval (settings initialState) \<le> 2600000"
    by (simp add: initialState_def defaultSettings_def)
  have m: "remainingMinutes \<lparr>allowed = True, remaining = 0\<rparr> = 0"
    by (simp add: remainingMinutes_def)
  have h4: "getQuota (exampleEnv 0 2000000) ''a1'' = Inr (Some \<lparr>allowed = True, remaining = 0\<rparr>)
      \<and> determineSyncStrategy (exampleState 1000000 45) ''a1''
          (remainingMinutes \<lparr>allowed = True, remaining = 0\<rparr>) (clock (exampleEnv 0 2000000) ''ms1'')
      \<and> setScreenTimeLimit (backend (exampleEnv 0 2000000)) (clock (exampleEnv 0 2000000) ''ms1'')
           exampleService ''ms1'' (remainingMinutes \<lparr>allowed = True, remaining = 0\<rparr>)
         = Inr (\<lparr>success = True, childId_res = ''ms1'', dailyLimit_res = 0\<rparr>, exampleService)"
    by (simp add: tick_defs example_defs)
  have a: "\<not> determineSyncStrategy exhaustedState ''a1'' 5 2001000"
    using h1 C10_zero_state_uses_intervals_only
      [of exhaustedState "''a1''" ?q 5 2001000 initialState "''ms1''" "exampleEnv 0 2000000"]
    by (simp add: exhaustedState_eq example_defs aggressiveInterval_def)
  have b: "syncRule exhaustedState ''a1'' 5 2600000 = AggressiveSync"
    by (simp add: syncRule_def oldMinutes_def lastSyncOf_def exhaustedState_eq example_defs
        aggressiveInterval_def)
  have c: "determineSyncStrategy (linkChild initialState ''ms1'' ''a1'') ''a1'' 50 2600000"
    using h3 C10_zero_state_uses_intervals_only
      [of exhaustedState "''a1''" ?q 50 2600000 initialState "''ms1''" "exampleEnv 0 2000000"]
    by simp
  have d: "quotaState (fst (fst (enforceChild (exampleEnv 0 2000000) (''ms1'', ''a1'')
        (exampleState 1000000 45, exampleService)))) ''a1''
       = Some \<lparr>lastSyncTime = 2000000, lastSyncMinutes = 0, allow2Minutes = 0\<rparr>"
    using h4 C10_zero_state_uses_intervals_only
      [of exhaustedState "''a1''" ?q 50 2600000 initialState "''ms1''" "exampleEnv 0 2000000"
          "\<lparr>allowed = True, remaining = 0\<rparr>" "exampleState 1000000 45" exampleService
          "\<lparr>success = True, childId_res = ''ms1'', dailyLimit_res = 0\<rparr>" exampleService]
    by (simp add: m example_defs)
  show ?thesis using a b c d by simp
qed

section \<open>Properties of the monitor\<close>

text \<open>
  C4. When \<open>state.authenticated\<close> is false or the service is not authenticated as a check
  begins, the check calls nothing (no getQuota, no setScreenTimeLimit, no
  configurationUpdate, no notification) and returns the state and the service as they
  were, \<open>lastSync\<close> included; the timer callback leaves the whole closure as it was, so the
  timer handle stays set and the next callback runs the same check again.
\<close>

theorem C4_unauthenticated_tick_does_nothing:
  assumes "\<not> authenticated (state p) \<or> \<not> isAuthenticated (familyService p) (tickStart e)"
  shows "checkAndEnforceQuotas e (state p) (familyService p) = ((state p, familyService p), [])
    \<and> monitorTick e p = (p, [])
    \<and> quotaMonitor (fst (monitorTick e p)) = quotaMonitor p
    \<and> monitorTick e' (fst (monitorTick e p)) = monitorTick e' p"
proof -
  have c: "checkAndEnforceQuotas e (state p) (familyService p) = ((state p, familyService p), [])"
    using assms by (auto simp: checkAndEnforceQuotas_def)
  have m: "monitorTick e p = (p, [])"
    by (simp add: monitorTick_def c)
  show ?thesis by (simp add: c m)
qed

theorem C4_witness:
  "\<not> isAuthenticated (familyService examplePlugin) (tickStart (exampleEnv 0 9500000))
   \<and> monitorTick (exampleEnv 0 9500000) examplePlugin = (examplePlugin, [])
   \<and> quotaMonitor (fst (monitorTick (exampleEnv 0 9500000) examplePlugin))"
proof -
  have h: "\<not> isAuthenticated (familyService examplePlugin) (tickStart (exampleEnv 0 9500000))"
    by (simp add: examplePlugin_def isAuthenticated_def example_defs)
  have q: "quotaMonitor examplePlugin"
    by (simp add: examplePlugin_def)
  from h have "\<not> authenticated (state examplePlugin)
      \<or> \<not> isAuthenticated (familyService examplePlugin) (tickStart (exampleEnv 0 9500000))"
    by simp
  from C4_unauthenticated_tick_does_nothing [OF this] h q show ?thesis by simp
qed

text \<open>
  C8. The msFamily.syncNow handler and the timer callback run the same function on the
  same closure: from the same state, service and surroundings they end in the same state
  and service and perform the same calls in the same order. A child that is not due is
  only asked for its quota: no push, no change of state.
\<close>

theorem C8_syncNow_runs_the_monitor_check:
  "fst (syncNow e p) = fst (monitorTick e p)
   \<and> fst (snd (syncNow e p)) = snd (monitorTick e p)
   \<and> (getQuota e a = Inr (Some q)
        \<and> \<not> determineSyncStrategy st a (remainingMinutes q) (clock e ms) \<longrightarrow>
      enforceChild e (ms, a) (st, svc) = ((st, svc), [GetQuotaCall a]))"
proof -
  obtain st' svc' ev where r: "checkAndEnforceQuotas e (state p) (familyService p) = ((st', svc'), ev)"
    by (metis prod.exhaust)
  have "fst (syncNow e p) = fst (monitorTick e p)"
    by (simp add: syncNow_def monitorTick_def r)
  moreover have "fst (snd (syncNow e p)) = snd (monitorTick e p)"
    by (simp add: syncNow_def monitorTick_def r)
  ultimately show ?thesis
    by (simp add: enforceChild_not_due)
qed

theorem C8_witness:
  "syncNow (exampleEnv 2700 1001000) examplePlugin
     = (examplePlugin\<lparr>state := (exampleState 1000000 45)\<lparr>lastSync := Some 1001000\<rparr>\<rparr>,
        [GetQuotaCall ''a1'', ConfigurationUpdate], (True, Some 1001000))
   \<and> enforceChild (exampleEnv 2700 1001000) (''ms1'', ''a1'') (exampleState 1000000 45, exampleService)
     = ((exampleState 1000000 45, exampleService), [GetQuotaCall ''a1''])"
proof -
  have h: "getQuota (exampleEnv 2700 1001000) ''a1'' = Inr (Some \<lparr>allowed = True, remaining = 2700\<rparr>)
     \<and> \<not> determineSyncStrategy (exampleState 1000000 45) ''a1''
          (remainingMinutes \<lparr>allowed = True, remaining = 2700\<rparr>) (clock (exampleEnv 2700 1001000) ''ms1'')"
    by (simp add: tick_defs example_defs)
  have s: "syncNow (exampleEnv 2700 1001000) examplePlugin
     = (examplePlugin\<lparr>state := (exampleState 1000000 45)\<lparr>lastSync := Some 1001000\<rparr>\<rparr>,
        [GetQuotaCall ''a1'', ConfigurationUpdate], (True, Some 1001000))"
    by (simp add: syncNow_def examplePlugin_def tick_defs example_defs)
  from h C8_syncNow_runs_the_monitor_check
      [of "exampleEnv 2700 1001000" examplePlugin "''a1''" "\<lparr>allowed = True, remaining = 2700\<rparr>"
          "exampleState 1000000 45" "''ms1''" exampleService]
  have "enforceChild (exampleEnv 2700 1001000) (''ms1'', ''a1'') (exampleState 1000000 45, exampleService)
     = ((exampleState 1000000 45, exampleService), [GetQuotaCall ''a1''])"
    by blast
  with s show ?thesis by simp
qed

section \<open>The screen time cache\<close>

lemma getScreenTime_uncached:
  assumes "screenTime svc cid = None"
  shows "getScreenTime rem now svc cid forceRefresh =
     (if \<not> isAuthenticated svc now then Inl NotAuthenticated
      else
        (case rem (PostGetScreenTimeSettings cid (familyId svc)) of
           Inl e \<Rightarrow> Inl e
         | Inr response \<Rightarrow>
             Inr (buildScreenTime cid response now,
                  svc\<lparr>screenTime := (screenTime svc)
                     (cid \<mapsto> \<lparr>data = buildScreenTime cid response now, timestamp = now\<rparr>)\<rparr>)))"
  using assms by (simp add: getScreenTime_def apiRequest_def)

lemma setScreenTimeLimit_Inr:
  assumes "setScreenTimeLimit rem now svc cid minutes = Inr (r, svc')"
  shows "svc' = svc\<lparr>screenTime := (screenTime svc)(cid := None)\<rparr>"
  using assms by (auto simp: setScreenTimeLimit_def split: if_splits sum.splits)

lemma setScreenTimeLimit_Inl:
  assumes "setScreenTimeLimit rem now svc cid minutes = Inl err"
  shows "\<not> isAuthenticated svc now \<and> err = NotAuthenticated
    \<or> rem (PostSetScreenTimeLimit cid (familyId svc) minutes (minutes > 0)) = Inl err"
  using assms by (auto simp: setScreenTimeLimit_def apiRequest_def split: if_splits sum.splits)

text \<open>
  C5. A successful setScreenTimeLimit for a child removes that child's entry from the
  screen time cache and leaves every other child's entry alone. A getScreenTime for the
  child that follows, with forceRefresh false, therefore does what a forced refresh does:
  it asks the backend and returns the object built from that answer, stamped with the time
  of the read. So it is not the entry cached before the push (whose stamp is earlier).
\<close>

theorem C5_push_invalidates_cached_limit:
  assumes "setScreenTimeLimit rem now svc cid minutes = Inr (r, svc')"
  shows "screenTime svc' cid = None
    \<and> (\<forall>c. c \<noteq> cid \<longrightarrow> screenTime svc' c = screenTime svc c)
    \<and> getScreenTime rem' now' svc' cid False = getScreenTime rem' now' svc' cid True
    \<and> getScreenTime rem' now' svc' cid False =
        (if \<not> isAuthenticated svc' now' then Inl NotAuthenticated
         else
           (case rem' (PostGetScreenTimeSettings cid (familyId svc')) of
              Inl e \<Rightarrow> Inl e
            | Inr response \<Rightarrow>
                Inr (buildScreenTime cid response now',
                     svc'\<lparr>screenTime := (screenTime svc')
                        (cid \<mapsto> \<lparr>data = buildScreenTime cid response now', timestamp = now'\<rparr>)\<rparr>)))
    \<and> (\<forall>cached s. screenTime svc cid = Some cached \<and> lastUpdated (data cached) < now' \<longrightarrow>
          getScreenTime rem' now' svc' cid False \<noteq> Inr (data cached, s))"
proof -
  have svc': "svc' = svc\<lparr>screenTime := (screenTime svc)(cid := None)\<rparr>"
    using assms by (rule setScreenTimeLimit_Inr)
  have gone: "screenTime svc' cid = None"
    by (simp add: svc')
  have others: "\<forall>c. c \<noteq> cid \<longrightarrow> screenTime svc' c = screenTime svc c"
    by (simp add: svc')
  note fresh = getScreenTime_uncached [OF gone, of rem' now']
  have same: "getScreenTime rem' now' svc' cid False = getScreenTime rem' now' svc' cid True"
    by (simp only: fresh)
  have stale: "getScreenTime rem' now' svc' cid False \<noteq> Inr (data cached, s)"
    if "lastUpdated (data cached) < now'" for cached :: cache_entry and s
  proof
    assume eq: "getScreenTime rem' now' svc' cid False = Inr (data cached, s)"
    then obtain response where "buildScreenTime cid response now' = data cached"
      unfolding fresh by (auto split: if_splits sum.splits)
    then have "lastUpdated (data cached) = lastUpdated (buildScreenTime cid response now')"
      by simp
    then have "lastUpdated (data cached) = now'"
      by (simp add: buildScreenTime_def)
    with that show False by simp
  qed
  show ?thesis
    using gone others same fresh [of False] stale by blast
qed

theorem C5_witness:
  "getScreenTime (limitBackend 30) 1000500 cachedService ''ms1'' False
     = Inr (\<lparr>childId = ''ms1'', enabled = True, dailyLimit = 60, currentUsage = 10,
             remaining_st = 50, schedule = ''{}'', lastUpdated = 1000000\<rparr>, cachedService)
   \<and> setScreenTimeLimit (limitBackend 30) 1000500 cachedService ''ms1'' 30
     = Inr (\<lparr>success = True, childId_res = ''ms1'', dailyLimit_res = 30\<rparr>, exampleService)
   \<and> getScreenTime (limitBackend 30) 1000501 exampleService ''ms1'' False
     = Inr (\<lparr>childId = ''ms1'', enabled = True, dailyLimit = 30, currentUsage = 10,
             remaining_st = 20, schedule = ''{}'', lastUpdated = 1000501\<rparr>,
            exampleService\<lparr>screenTime :=
              [''ms1'' \<mapsto> \<lparr>data = \<lparr>childId = ''ms1'', enabled = True, dailyLimit = 30,
                 currentUsage = 10, remaining_st = 20, schedule = ''{}'', lastUpdated = 1000501\<rparr>,
                 timestamp = 1000501\<rparr>]\<rparr>)"
proof -
  have before: "getScreenTime (limitBackend 30) 1000500 cachedService ''ms1'' False
     = Inr (\<lparr>childId = ''ms1'', enabled = True, dailyLimit = 60, currentUsage = 10,
             remaining_st = 50, schedule = ''{}'', lastUpdated = 1000000\<rparr>, cachedService)"
    by (simp add: cachedService_def getScreenTime_def isAuthenticated_def exampleService_def)
  have push: "setScreenTimeLimit (limitBackend 30) 1000500 cachedService ''ms1'' 30
     = Inr (\<lparr>success = True, childId_res = ''ms1'', dailyLimit_res = 30\<rparr>, exampleService)"
    by (simp add: cachedService_def setScreenTimeLimit_def apiRequest_def isAuthenticated_def
        limitBackend_def exampleService_def)
  have after: "getScreenTime (limitBackend 30) 1000501 exampleService ''ms1'' False
     = Inr (\<lparr>childId = ''ms1'', enabled = True, dailyLimit = 30, currentUsage = 10,
             remaining_st = 20, schedule = ''{}'', lastUpdated = 1000501\<rparr>,
            exampleService\<lparr>screenTime :=
              [''ms1'' \<mapsto> \<lparr>data = \<lparr>childId = ''ms1'', enabled = True, dailyLimit = 30,
                 currentUsage = 10, remaining_st = 20, schedule = ''{}'', lastUpdated = 1000501\<rparr>,
                 timestamp = 1000501\<rparr>]\<rparr>)"
    using C5_push_invalidates_cached_limit [OF push, of "limitBackend 30" 1000501,
        THEN conjunct2, THEN conjunct2, THEN conjunct2, THEN conjunct1]
    by (simp add: isAuthenticated_def buildScreenTime_def orElse_def limitBackend_def
        exampleService_def)
  show ?thesis using before push after by simp
qed

section \<open>The monitor loop\<close>

declare enforceChild.simps [simp del]

lemma enforceAll_append:
  "enforceAll e (xs @ ys) w =
     (case enforceAll e xs w of
        (w1, ev1) \<Rightarrow> (case enforceAll e ys w1 of (w2, ev2) \<Rightarrow> (w2, ev1 @ ev2)))"
  by (induction xs arbitrary: w) (auto split: prod.splits)

lemma enforceChild_quotaState_other:
  assumes "a' \<noteq> a"
  shows "quotaState (fst (fst (enforceChild e (ms, a') (st, svc)))) a = quotaState st a"
  using assms by (auto simp: enforceChild.simps split: sum.splits option.splits)

lemma enforceAll_quotaState_other:
  assumes "a \<notin> snd ` set ls"
  shows "quotaState (fst (fst (enforceAll e ls (st, svc)))) a = quotaState st a"
  using assms
proof (induction ls arbitrary: st svc)
  case Nil
  then show ?case by simp
next
  case (Cons l ls)
  obtain ms a' where l: "l = (ms, a')" by (cases l)
  obtain st1 svc1 ev1 where step: "enforceChild e (ms, a') (st, svc) = ((st1, svc1), ev1)"
    by (metis prod.exhaust)
  have "a' \<noteq> a" using Cons.prems l by auto
  then have "quotaState st1 a = quotaState st a"
    using enforceChild_quotaState_other [of a' a e ms st svc] step by simp
  moreover have "quotaState (fst (fst (enforceAll e ls (st1, svc1)))) a = quotaState st1 a"
    using Cons.IH [of st1 svc1] Cons.prems by simp
  moreover have "enforceAll e (l # ls) (st, svc)
      = (fst (enforceAll e ls (st1, svc1)), ev1 @ snd (enforceAll e ls (st1, svc1)))"
    by (simp add: l step split: prod.splits)
  ultimately show ?case
    by (simp only: fst_conv)
qed


lemma enforceAll_evaluates_every_link:
  assumes "(ms, a) \<in> set ls"
  shows "GetQuotaCall a \<in> set (snd (enforceAll e ls w))"
  using assms
proof (induction ls arbitrary: w)
  case Nil
  then show ?case by simp
next
  case (Cons l ls)
  obtain st svc where w: "w = (st, svc)" by (cases w)
  obtain ms' a' where l: "l = (ms', a')" by (cases l)
  obtain w1 ev1 where step: "enforceChild e l w = (w1, ev1)"
    by (metis prod.exhaust)
  obtain w2 ev2 where rest: "enforceAll e ls w1 = (w2, ev2)"
    by (metis prod.exhaust)
  have all: "enforceAll e (l # ls) w = (w2, ev1 @ ev2)"
    by (simp add: step rest)
  have first: "GetQuotaCall a' \<in> set (snd (enforceChild e (ms', a') (st, svc)))"
    by (auto simp: enforceChild.simps split: sum.splits option.splits)
  show ?case
  proof (cases "(ms, a) = l")
    case True
    with first l w step have "GetQuotaCall a \<in> set ev1" by simp
    then show ?thesis unfolding all by simp
  next
    case False
    with Cons.prems have "(ms, a) \<in> set ls" by simp
    from Cons.IH [OF this, of w1] rest have "GetQuotaCall a \<in> set ev2" by simp
    then show ?thesis unfolding all by simp
  qed
qed

lemma enforceAll_split:
  assumes "enforceAll e pre w = (w1, ev1)"
    and "enforceChild e l w1 = (w2, ev2)"
    and "enforceAll e post w2 = (w3, ev3)"
  shows "enforceAll e (pre @ l # post) w = (w3, ev1 @ ev2 @ ev3)"
  using assms by (simp add: enforceAll_append)


lemma enforceChild_due_calls_service:
  assumes "getQuota e a = Inr (Some q)"
    and "determineSyncStrategy st a (remainingMinutes q) (clock e ms)"
  shows "SetLimitCall ms (remainingMinutes q) \<in> set (snd (enforceChild e (ms, a) (st, svc)))"
  using assms by (auto simp: enforceChild.simps split: sum.splits)

lemma checkAndEnforceQuotas_authenticated:
  assumes "authenticated st" and "isAuthenticated svc (tickStart e)"
    and "enforceAll e (childLinks st) (st, svc) = ((st', svc'), ev)"
  shows "checkAndEnforceQuotas e st svc
     = ((st'\<lparr>lastSync := Some (tickEnd e)\<rparr>, svc'), ev @ [ConfigurationUpdate])"
  using assms by (simp add: checkAndEnforceQuotas_def)

lemma checkAndEnforceQuotas_events:
  assumes "authenticated st" and "isAuthenticated svc (tickStart e)"
  shows "snd (checkAndEnforceQuotas e st svc)
     = snd (enforceAll e (childLinks st) (st, svc)) @ [ConfigurationUpdate]"
  using assms by (simp add: checkAndEnforceQuotas_def split: prod.splits)

lemmas loop_defs = enforceChild.simps tick_defs example_defs

text \<open>
  C3, as the code has it. Let the push for the link (ms, a) fail in an authenticated run:
  the quota is there, the decision at the child's turn is to push, and setScreenTimeLimit
  raises. Then that iteration changes neither the state nor the service and only logs the
  error; the loop goes on with the links after it from that same state, and the run ends
  as usual. Every linked child is asked for its quota, and every child that is due at its
  turn gets its setScreenTimeLimit call. The entry quotaState[a] is after the run what it
  was before, provided no other link of the run has the same allow2ChildId a: the entries
  are keyed by allow2ChildId, so a second link to a that is pushed with success rewrites
  the entry.
\<close>

theorem C3_failed_push_is_isolated:
  assumes auth: "authenticated st" "isAuthenticated svc (tickStart e)"
    and links: "childLinks st = pre @ (ms, a) # post"
    and before: "enforceAll e pre (st, svc) = ((st1, svc1), ev1)"
    and quota: "getQuota e a = Inr (Some q)"
    and due: "determineSyncStrategy st1 a (remainingMinutes q) (clock e ms)"
    and fails: "setScreenTimeLimit (backend e) (clock e ms) svc1 ms (remainingMinutes q) = Inl err"
    and after: "enforceAll e post (st1, svc1) = ((st2, svc2), ev2)"
  shows "enforceChild e (ms, a) (st1, svc1)
        = ((st1, svc1), [GetQuotaCall a, SetLimitCall ms (remainingMinutes q), ErrorLogged ms err])
    \<and> checkAndEnforceQuotas e st svc
        = ((st2\<lparr>lastSync := Some (tickEnd e)\<rparr>, svc2),
           ev1 @ [GetQuotaCall a, SetLimitCall ms (remainingMinutes q), ErrorLogged ms err]
             @ ev2 @ [ConfigurationUpdate])
    \<and> (a \<notin> snd ` set pre \<and> a \<notin> snd ` set post \<longrightarrow>
         quotaState (fst (fst (checkAndEnforceQuotas e st svc))) a = quotaState st a)
    \<and> (\<forall>(ms', a') \<in> set (childLinks st).
          GetQuotaCall a' \<in> set (snd (checkAndEnforceQuotas e st svc)))
    \<and> (\<forall>pre' ms' a' post' w' ev' q'.
          childLinks st = pre' @ (ms', a') # post'
          \<and> enforceAll e pre' (st, svc) = (w', ev')
          \<and> getQuota e a' = Inr (Some q')
          \<and> determineSyncStrategy (fst w') a' (remainingMinutes q') (clock e ms') \<longrightarrow>
          SetLimitCall ms' (remainingMinutes q') \<in> set (snd (checkAndEnforceQuotas e st svc)))"
proof -
  let ?evs = "[GetQuotaCall a, SetLimitCall ms (remainingMinutes q), ErrorLogged ms err]"
  have step: "enforceChild e (ms, a) (st1, svc1) = ((st1, svc1), ?evs)"
    using quota due fails by (rule enforceChild_push_failed)
  have loop: "enforceAll e (childLinks st) (st, svc) = ((st2, svc2), ev1 @ ?evs @ ev2)"
    unfolding links using before step after by (rule enforceAll_split)
  have run: "checkAndEnforceQuotas e st svc
        = ((st2\<lparr>lastSync := Some (tickEnd e)\<rparr>, svc2), ev1 @ ?evs @ ev2 @ [ConfigurationUpdate])"
    using checkAndEnforceQuotas_authenticated [OF auth loop] by simp
  have kept: "quotaState (fst (fst (checkAndEnforceQuotas e st svc))) a = quotaState st a"
    if "a \<notin> snd ` set pre" and "a \<notin> snd ` set post"
  proof -
    have "quotaState st1 a = quotaState st a"
      using enforceAll_quotaState_other [OF that(1), of e st svc] before by simp
    moreover have "quotaState st2 a = quotaState st1 a"
      using enforceAll_quotaState_other [OF that(2), of e st1 svc1] after by simp
    ultimately show ?thesis by (simp add: run)
  qed
  have asked: "GetQuotaCall a' \<in> set (snd (checkAndEnforceQuotas e st svc))"
    if "(ms', a') \<in> set (childLinks st)" for ms' a'
    using enforceAll_evaluates_every_link [OF that, of e "(st, svc)"]
    by (simp add: checkAndEnforceQuotas_events [OF auth])
  have pushed: "SetLimitCall ms' (remainingMinutes q') \<in> set (snd (checkAndEnforceQuotas e st svc))"
    if l: "childLinks st = pre' @ (ms', a') # post'"
      and b: "enforceAll e pre' (st, svc) = (w', ev')"
      and qu: "getQuota e a' = Inr (Some q')"
      and d: "determineSyncStrategy (fst w') a' (remainingMinutes q') (clock e ms')"
    for pre' ms' a' post' w' ev' q'
  proof -
    obtain w3 ev3 where s: "enforceChild e (ms', a') w' = (w3, ev3)"
      by (metis prod.exhaust)
    obtain w4 ev4 where r: "enforceAll e post' w3 = (w4, ev4)"
      by (metis prod.exhaust)
    have "SetLimitCall ms' (remainingMinutes q') \<in> set (snd (enforceChild e (ms', a') (fst w', snd w')))"
      using qu d by (rule enforceChild_due_calls_service)
    then have "SetLimitCall ms' (remainingMinutes q') \<in> set ev3"
      using s by simp
    moreover have "enforceAll e (childLinks st) (st, svc) = (w4, ev' @ ev3 @ ev4)"
      unfolding l using b s r by (rule enforceAll_split)
    ultimately have "SetLimitCall ms' (remainingMinutes q')
        \<in> set (snd (enforceAll e (childLinks st) (st, svc)))"
      by simp
    then show ?thesis
      by (simp add: checkAndEnforceQuotas_events [OF auth])
  qed
  show ?thesis
    using step run kept asked pushed by blast
qed


theorem C3_witness:
  "checkAndEnforceQuotas failingEnv (twoChildState ''a2'') exampleService
     = (((twoChildState ''a2'')
          \<lparr>quotaState := (quotaState (twoChildState ''a2''))
             (''a2'' \<mapsto> \<lparr>lastSyncTime = 1001000, lastSyncMinutes = 50, allow2Minutes = 50\<rparr>),
           lastSync := Some 1001000\<rparr>, exampleService),
        [GetQuotaCall ''a1'', SetLimitCall ''ms1'' 50, ErrorLogged ''ms1'' (ApiRequestFailed 500),
         GetQuotaCall ''a2'', SetLimitCall ''ms2'' 50, ConfigurationUpdate, ConfigurationUpdate])
   \<and> quotaState (fst (fst (checkAndEnforceQuotas failingEnv (twoChildState ''a2'') exampleService))) ''a1''
     = Some \<lparr>lastSyncTime = 1000000, lastSyncMinutes = 45, allow2Minutes = 45\<rparr>"
proof -
  let ?st = "twoChildState ''a2''"
  let ?q = "\<lparr>allowed = True, remaining = 3000\<rparr>"
  let ?st2 = "?st\<lparr>quotaState := (quotaState ?st)
             (''a2'' \<mapsto> \<lparr>lastSyncTime = 1001000, lastSyncMinutes = 50, allow2Minutes = 50\<rparr>)\<rparr>"
  have m: "remainingMinutes ?q = 50"
    by (simp add: remainingMinutes_def)
  have auth: "authenticated ?st" "isAuthenticated exampleService (tickStart failingEnv)"
    by (simp_all add: twoChildState_def failingEnv_def isAuthenticated_def exampleService_def)
  have links: "childLinks ?st = [] @ (''ms1'', ''a1'') # [(''ms2'', ''a2'')]"
    by (simp add: twoChildState_def)
  have before: "enforceAll failingEnv [] (?st, exampleService) = ((?st, exampleService), [])"
    by simp
  have quota: "getQuota failingEnv ''a1'' = Inr (Some ?q)"
    by (simp add: failingEnv_def)
  have due: "determineSyncStrategy ?st ''a1'' (remainingMinutes ?q) (clock failingEnv ''ms1'')"
    by (simp add: twoChildState_def failingEnv_def tick_defs)
  have fails: "setScreenTimeLimit (backend failingEnv) (clock failingEnv ''ms1'') exampleService
      ''ms1'' (remainingMinutes ?q) = Inl (ApiRequestFailed 500)"
    by (simp add: failingEnv_def tick_defs example_defs)
  have after: "enforceAll failingEnv [(''ms2'', ''a2'')] (?st, exampleService)
      = ((?st2, exampleService), [GetQuotaCall ''a2'', SetLimitCall ''ms2'' 50, ConfigurationUpdate])"
    by (simp add: twoChildState_def failingEnv_def loop_defs)
  note c3 = C3_failed_push_is_isolated [OF auth links before quota due fails after]
  have run: "checkAndEnforceQuotas failingEnv ?st exampleService
        = ((?st2\<lparr>lastSync := Some (tickEnd failingEnv)\<rparr>, exampleService),
           [] @ [GetQuotaCall ''a1'', SetLimitCall ''ms1'' (remainingMinutes ?q),
                 ErrorLogged ''ms1'' (ApiRequestFailed 500)]
             @ [GetQuotaCall ''a2'', SetLimitCall ''ms2'' 50, ConfigurationUpdate]
             @ [ConfigurationUpdate])"
    using c3 [THEN conjunct2, THEN conjunct1] .
  have kept: "''a1'' \<notin> snd ` set ([] :: (string \<times> string) list) \<and> ''a1'' \<notin> snd ` set [(''ms2'', ''a2'')] \<longrightarrow>
      quotaState (fst (fst (checkAndEnforceQuotas failingEnv ?st exampleService))) ''a1''
        = quotaState ?st ''a1''"
    using c3 [THEN conjunct2, THEN conjunct2, THEN conjunct1] .
  have "tickEnd failingEnv = 1001000"
    by (simp add: failingEnv_def)
  with run m have r: "checkAndEnforceQuotas failingEnv ?st exampleService
     = ((?st2\<lparr>lastSync := Some 1001000\<rparr>, exampleService),
        [GetQuotaCall ''a1'', SetLimitCall ''ms1'' 50, ErrorLogged ''ms1'' (ApiRequestFailed 500),
         GetQuotaCall ''a2'', SetLimitCall ''ms2'' 50, ConfigurationUpdate, ConfigurationUpdate])"
    by simp
  from kept have k: "quotaState (fst (fst (checkAndEnforceQuotas failingEnv ?st exampleService))) ''a1''
     = Some \<lparr>lastSyncTime = 1000000, lastSyncMinutes = 45, allow2Minutes = 45\<rparr>"
    by (simp add: twoChildState_def)
  show ?thesis
    using r k by simp
qed

text \<open>
  Two msChildIds linked to the same allow2ChildId a1. The push for ms1 fails with status
  500, the push for ms2 succeeds in the same run, and the entry of a1, which is the entry
  of the failing link too, is rewritten.
\<close>

theorem C3_shared_allow2_child_counterexample:
  "childLinks (twoChildState ''a1'') = [(''ms1'', ''a1''), (''ms2'', ''a1'')]
   \<and> quotaState (twoChildState ''a1'') ''a1''
       = Some \<lparr>lastSyncTime = 1000000, lastSyncMinutes = 45, allow2Minutes = 45\<rparr>
   \<and> setScreenTimeLimit (backend failingEnv) (clock failingEnv ''ms1'') exampleService ''ms1'' 50
       = Inl (ApiRequestFailed 500)
   \<and> snd (checkAndEnforceQuotas failingEnv (twoChildState ''a1'') exampleService)
       = [GetQuotaCall ''a1'', SetLimitCall ''ms1'' 50, ErrorLogged ''ms1'' (ApiRequestFailed 500),
          GetQuotaCall ''a1'', SetLimitCall ''ms2'' 50, ConfigurationUpdate, ConfigurationUpdate]
   \<and> quotaState (fst (fst (checkAndEnforceQuotas failingEnv (twoChildState ''a1'') exampleService))) ''a1''
       = Some \<lparr>lastSyncTime = 1001000, lastSyncMinutes = 50, allow2Minutes = 50\<rparr>"
  by (simp add: twoChildState_def failingEnv_def loop_defs)

section \<open>Notifications\<close>

lemma enforceChild_notification:
  assumes "Notification k ms' m \<in> set (snd (enforceChild e (ms, a) (st, svc)))"
  shows "ms' = ms
    \<and> (\<exists>q r svc2. getQuota e a = Inr (Some q) \<and> m = remainingMinutes q
          \<and> determineSyncStrategy st a m (clock e ms)
          \<and> setScreenTimeLimit (backend e) (clock e ms) svc ms m = Inr (r, svc2))
    \<and> (k = LowScreenTime \<longleftrightarrow> 0 < m \<and> m < 10)
    \<and> (k = ScreenTimeExhausted \<longleftrightarrow> m = 0)"
  using assms
  by (auto simp: enforceChild.simps notifications_def split: sum.splits option.splits if_splits)

lemma enforceAll_event_origin:
  assumes "ev \<in> set (snd (enforceAll e ls w))"
  shows "\<exists>pre l post w1 ev1. ls = pre @ l # post \<and> enforceAll e pre w = (w1, ev1)
           \<and> ev \<in> set (snd (enforceChild e l w1))"
  using assms
proof (induction ls arbitrary: w)
  case Nil
  then show ?case by simp
next
  case (Cons l ls)
  obtain w1 ev1 where step: "enforceChild e l w = (w1, ev1)"
    by (metis prod.exhaust)
  obtain w2 ev2 where rest: "enforceAll e ls w1 = (w2, ev2)"
    by (metis prod.exhaust)
  have all: "enforceAll e (l # ls) w = (w2, ev1 @ ev2)"
    by (simp add: step rest)
  from Cons.prems have "ev \<in> set ev1 \<or> ev \<in> set ev2"
    unfolding all by simp
  then show ?case
  proof
    assume "ev \<in> set ev1"
    then have "l # ls = [] @ l # ls \<and> enforceAll e [] w = (w, [])
        \<and> ev \<in> set (snd (enforceChild e l w))"
      by (simp add: step)
    then show ?thesis by blast
  next
    assume "ev \<in> set ev2"
    then have "ev \<in> set (snd (enforceAll e ls w1))"
      by (simp add: rest)
    from Cons.IH [OF this] obtain pre l' post w1' ev1'
      where ls: "ls = pre @ l' # post" and p: "enforceAll e pre w1 = (w1', ev1')"
        and m: "ev \<in> set (snd (enforceChild e l' w1'))"
      by blast
    have "l # ls = (l # pre) @ l' # post"
      by (simp add: ls)
    moreover have "enforceAll e (l # pre) w = (w1', ev1 @ ev1')"
      by (simp add: step p)
    ultimately show ?thesis
      using m by blast
  qed
qed

lemma checkAndEnforceQuotas_notification:
  assumes "Notification k ms m \<in> set (snd (checkAndEnforceQuotas e st svc))"
  shows "Notification k ms m \<in> set (snd (enforceAll e (childLinks st) (st, svc)))"
  using assms by (auto simp: checkAndEnforceQuotas_def split: if_splits prod.splits)

text \<open>
  C6, as the code has it. A notification appears in a run only for a link whose push
  succeeded in that run (the quota was there, the decision at the child's turn was to
  push, and setScreenTimeLimit returned), never for a child that was only evaluated or
  whose push failed. After a successful push of \<open>m\<close> minutes the low-allowance notice is
  sent exactly when 0 < m < 10, and the exhausted notice exactly when m = 0, whatever value
  was pushed before: a child that stays at 0 gets the exhausted notice again at every
  successful push.
\<close>

theorem C6_notifications_follow_successful_pushes:
  "(Notification k ms m \<in> set (snd (checkAndEnforceQuotas e st svc)) \<longrightarrow>
      (\<exists>pre a post st1 svc1 ev1 q r svc2.
          childLinks st = pre @ (ms, a) # post
          \<and> enforceAll e pre (st, svc) = ((st1, svc1), ev1)
          \<and> getQuota e a = Inr (Some q) \<and> m = remainingMinutes q
          \<and> determineSyncStrategy st1 a m (clock e ms)
          \<and> setScreenTimeLimit (backend e) (clock e ms) svc1 ms m = Inr (r, svc2))
      \<and> (k = LowScreenTime \<longleftrightarrow> 0 < m \<and> m < 10)
      \<and> (k = ScreenTimeExhausted \<longleftrightarrow> m = 0))
   \<and> (authenticated st \<and> isAuthenticated svc (tickStart e)
        \<and> childLinks st = pre @ (ms, a) # post
        \<and> enforceAll e pre (st, svc) = ((st1, svc1), ev1)
        \<and> getQuota e a = Inr (Some q)
        \<and> determineSyncStrategy st1 a (remainingMinutes q) (clock e ms)
        \<and> setScreenTimeLimit (backend e) (clock e ms) svc1 ms (remainingMinutes q) = Inr (r, svc2) \<longrightarrow>
      (0 < remainingMinutes q \<and> remainingMinutes q < 10 \<longrightarrow>
         Notification LowScreenTime ms (remainingMinutes q)
           \<in> set (snd (checkAndEnforceQuotas e st svc)))
      \<and> (remainingMinutes q = 0 \<longrightarrow>
         Notification ScreenTimeExhausted ms 0 \<in> set (snd (checkAndEnforceQuotas e st svc))))"
proof -
  have only: "(\<exists>pre a post st1 svc1 ev1 q r svc2.
          childLinks st = pre @ (ms, a) # post
          \<and> enforceAll e pre (st, svc) = ((st1, svc1), ev1)
          \<and> getQuota e a = Inr (Some q) \<and> m = remainingMinutes q
          \<and> determineSyncStrategy st1 a m (clock e ms)
          \<and> setScreenTimeLimit (backend e) (clock e ms) svc1 ms m = Inr (r, svc2))
      \<and> (k = LowScreenTime \<longleftrightarrow> 0 < m \<and> m < 10)
      \<and> (k = ScreenTimeExhausted \<longleftrightarrow> m = 0)"
    if n: "Notification k ms m \<in> set (snd (checkAndEnforceQuotas e st svc))"
  proof -
    from enforceAll_event_origin [OF checkAndEnforceQuotas_notification [OF n]]
    obtain pre l post w1 ev1
      where ls: "childLinks st = pre @ l # post" and p: "enforceAll e pre (st, svc) = (w1, ev1)"
        and mem: "Notification k ms m \<in> set (snd (enforceChild e l w1))"
      by blast
    obtain ms0 a0 where l: "l = (ms0, a0)" by (cases l)
    obtain st1 svc1 where w1: "w1 = (st1, svc1)" by (cases w1)
    from enforceChild_notification [OF mem [unfolded l w1]] ls p l w1
    show ?thesis by blast
  qed
  have sent: "(0 < remainingMinutes q \<and> remainingMinutes q < 10 \<longrightarrow>
         Notification LowScreenTime ms (remainingMinutes q)
           \<in> set (snd (checkAndEnforceQuotas e st svc)))
      \<and> (remainingMinutes q = 0 \<longrightarrow>
         Notification ScreenTimeExhausted ms 0 \<in> set (snd (checkAndEnforceQuotas e st svc)))"
    if auth: "authenticated st" "isAuthenticated svc (tickStart e)"
      and ls: "childLinks st = pre @ (ms, a) # post"
      and p: "enforceAll e pre (st, svc) = ((st1, svc1), ev1)"
      and qu: "getQuota e a = Inr (Some q)"
      and d: "determineSyncStrategy st1 a (remainingMinutes q) (clock e ms)"
      and ok: "setScreenTimeLimit (backend e) (clock e ms) svc1 ms (remainingMinutes q) = Inr (r, svc2)"
  proof -
    obtain w3 ev3 where s: "enforceChild e (ms, a) (st1, svc1) = (w3, ev3)"
      by (metis prod.exhaust)
    obtain w4 ev4 where rest: "enforceAll e post w3 = (w4, ev4)"
      by (metis prod.exhaust)
    have ev3: "ev3 = [GetQuotaCall a, SetLimitCall ms (remainingMinutes q), ConfigurationUpdate]
        @ notifications ms (remainingMinutes q)"
      using enforceChild_push_ok [OF qu d ok] s by simp
    have loop: "enforceAll e (childLinks st) (st, svc) = (w4, ev1 @ ev3 @ ev4)"
      unfolding ls using p s rest by (rule enforceAll_split)
    have "set (notifications ms (remainingMinutes q)) \<subseteq> set (snd (checkAndEnforceQuotas e st svc))"
      by (auto simp: checkAndEnforceQuotas_events [OF auth] loop ev3)
    then show ?thesis
      by (auto simp: notifications_def)
  qed
  show ?thesis
    using only sent by blast
qed


theorem C6_witness:
  "Notification LowScreenTime ''ms1'' 5
     \<in> set (snd (checkAndEnforceQuotas (exampleEnv 300 1600000) (exampleState 1000000 45) exampleService))
   \<and> Notification ScreenTimeExhausted ''ms1'' 5
     \<notin> set (snd (checkAndEnforceQuotas (exampleEnv 300 1600000) (exampleState 1000000 45) exampleService))"
proof -
  let ?e = "exampleEnv 300 1600000"
  let ?st = "exampleState 1000000 45"
  let ?q = "\<lparr>allowed = True, remaining = 300\<rparr>"
  let ?r = "\<lparr>success = True, childId_res = ''ms1'', dailyLimit_res = 5\<rparr>"
  note c6 = C6_notifications_follow_successful_pushes
    [of _ "''ms1''" _ ?e ?st exampleService "[]" "''a1''" "[]" ?st exampleService "[]" ?q ?r
       exampleService]
  have m: "remainingMinutes ?q = 5"
    by (simp add: remainingMinutes_def)
  have hyps: "authenticated ?st \<and> isAuthenticated exampleService (tickStart ?e)
        \<and> childLinks ?st = [] @ (''ms1'', ''a1'') # []
        \<and> enforceAll ?e [] (?st, exampleService) = ((?st, exampleService), [])
        \<and> getQuota ?e ''a1'' = Inr (Some ?q)
        \<and> determineSyncStrategy ?st ''a1'' (remainingMinutes ?q) (clock ?e ''ms1'')
        \<and> setScreenTimeLimit (backend ?e) (clock ?e ''ms1'') exampleService ''ms1''
             (remainingMinutes ?q) = Inr (?r, exampleService)"
    by (simp add: tick_defs example_defs)
  from c6 [THEN conjunct2, rule_format, OF hyps]
  have low: "Notification LowScreenTime ''ms1'' 5 \<in> set (snd (checkAndEnforceQuotas ?e ?st exampleService))"
    by (simp add: m)
  have none: "Notification ScreenTimeExhausted ''ms1'' 5
      \<notin> set (snd (checkAndEnforceQuotas ?e ?st exampleService))"
  proof
    assume "Notification ScreenTimeExhausted ''ms1'' 5
      \<in> set (snd (checkAndEnforceQuotas ?e ?st exampleService))"
    from c6 [of ScreenTimeExhausted 5, THEN conjunct1, rule_format, OF this]
    show False by simp
  qed
  show ?thesis using low none by simp
qed

text \<open>
  The quota of a1 stays at 0. The run at 2000000 pushes 0 (45 had been pushed before) and
  sends the exhausted notice; the run ten minutes later pushes 0 again, through the
  aggressive interval, and sends the exhausted notice again although the value pushed
  before was 0.
\<close>

theorem C6_exhausted_notice_repeats_counterexample:
  "Notification ScreenTimeExhausted ''ms1'' 0
     \<in> set (snd (checkAndEnforceQuotas (exampleEnv 0 2000000) (exampleState 1000000 45) exampleService))
   \<and> quotaState exhaustedState ''a1''
     = Some \<lparr>lastSyncTime = 2000000, lastSyncMinutes = 0, allow2Minutes = 0\<rparr>
   \<and> snd (checkAndEnforceQuotas (exampleEnv 0 2600000) exhaustedState exampleService)
     = [GetQuotaCall ''a1'', SetLimitCall ''ms1'' 0, ConfigurationUpdate,
        Notification ScreenTimeExhausted ''ms1'' 0, ConfigurationUpdate]"
  by (simp add: exhaustedState_eq loop_defs)

section \<open>Link and unlink\<close>

lemma linkChild_links:
  "map_of (childLinks (linkChild st ms a)) = (map_of (childLinks st))(ms \<mapsto> a)"
  by (simp add: linkChild_def update_conv')

lemma unlinkChild_links:
  "map_of (childLinks (unlinkChild st ms)) = (map_of (childLinks st))(ms := None)"
  by (simp add: unlinkChild_def delete_conv' split: option.splits)

lemma linkChild_distinct:
  "distinct (map fst (childLinks st)) \<Longrightarrow> distinct (map fst (childLinks (linkChild st ms a)))"
  by (simp add: linkChild_def distinct_update)

lemma unlinkChild_distinct:
  "distinct (map fst (childLinks st)) \<Longrightarrow> distinct (map fst (childLinks (unlinkChild st ms)))"
  by (simp add: unlinkChild_def distinct_delete split: option.splits)

lemma consistentLinks_linkChild:
  assumes inv: "consistentLinks st" and one: "oneToOneLink st ms a"
  shows "consistentLinks (linkChild st ms a)"
proof -
  let ?m = "map_of (childLinks st)"
  have d: "distinct (map fst (childLinks st))"
    using inv by (simp add: consistentLinks_def)
  have inj: "\<And>k k' v. ?m k = Some v \<Longrightarrow> ?m k' = Some v \<Longrightarrow> k = k'"
    using inv unfolding consistentLinks_def by blast
  have ne: "\<And>k. ?m k \<noteq> Some []"
    using inv by (simp add: consistentLinks_def)
  have dm: "dom (quotaState st) = ran ?m"
    using inv by (simp add: consistentLinks_def)
  have a: "a \<noteq> []"
    using one by (simp add: oneToOneLink_def)
  have only: "\<And>k. ?m k = Some a \<Longrightarrow> k = ms"
    using one d unfolding oneToOneLink_def by auto
  have own: "?m ms = None \<or> ?m ms = Some a"
    using one by (auto simp: oneToOneLink_def split: option.splits)
  have inj': "k = k'"
    if "(?m(ms \<mapsto> a)) k = Some v" and "(?m(ms \<mapsto> a)) k' = Some v" for k k' v
    using that inj only by (auto split: if_splits)
  have ne': "(?m(ms \<mapsto> a)) k \<noteq> Some []" for k
    using ne a by simp
  have "ran (?m(ms \<mapsto> a)) = insert a (ran ?m)"
  proof (rule disjE [OF own])
    assume "?m ms = None"
    then show ?thesis by simp
  next
    assume s: "?m ms = Some a"
    then have "?m(ms \<mapsto> a) = ?m" by (simp add: fun_upd_idem)
    moreover have "a \<in> ran ?m" using s by (auto simp: ran_def)
    ultimately show ?thesis by auto
  qed
  then have dm': "dom (quotaState (linkChild st ms a)) = ran (?m(ms \<mapsto> a))"
    using dm by (simp add: linkChild_def)
  show ?thesis
    unfolding consistentLinks_def linkChild_links
    using linkChild_distinct [OF d] inj' ne' dm' by blast
qed

lemma consistentLinks_unlinkChild:
  assumes inv: "consistentLinks st"
  shows "consistentLinks (unlinkChild st ms)"
proof -
  let ?m = "map_of (childLinks st)"
  have d: "distinct (map fst (childLinks st))"
    using inv by (simp add: consistentLinks_def)
  have inj: "\<And>k k' v. ?m k = Some v \<Longrightarrow> ?m k' = Some v \<Longrightarrow> k = k'"
    using inv unfolding consistentLinks_def by blast
  have ne: "\<And>k. ?m k \<noteq> Some []"
    using inv by (simp add: consistentLinks_def)
  have dm: "dom (quotaState st) = ran ?m"
    using inv by (simp add: consistentLinks_def)
  have inj': "k = k'"
    if "(?m(ms := None)) k = Some v" and "(?m(ms := None)) k' = Some v" for k k' v
    using that inj by (auto split: if_splits)
  have ne': "(?m(ms := None)) k \<noteq> Some []" for k
    using ne by simp
  have dm': "dom (quotaState (unlinkChild st ms)) = ran (?m(ms := None))"
  proof (cases "?m ms")
    case None
    then have "?m(ms := None) = ?m" by auto
    with None dm show ?thesis by (simp add: unlinkChild_def)
  next
    case (Some a)
    then have a: "a \<noteq> []" using ne by auto
    have "x \<in> ran (?m(ms := None)) \<longleftrightarrow> x \<in> ran ?m - {a}" for x
    proof
      assume "x \<in> ran (?m(ms := None))"
      then obtain k where k: "k \<noteq> ms" "?m k = Some x"
        by (auto simp: ran_def split: if_splits)
      have "x \<noteq> a"
      proof
        assume "x = a"
        with k(2) Some have "k = ms" by (auto intro: inj)
        with k(1) show False by simp
      qed
      with k(2) show "x \<in> ran ?m - {a}"
        by (auto simp: ran_def)
    next
      assume "x \<in> ran ?m - {a}"
      then obtain k where k: "?m k = Some x" "x \<noteq> a"
        by (auto simp: ran_def)
      with Some have "k \<noteq> ms" by auto
      with k(1) have "(?m(ms := None)) k = Some x" by simp
      then show "x \<in> ran (?m(ms := None))"
        unfolding ran_def by blast
    qed
    then have "ran (?m(ms := None)) = ran ?m - {a}"
      by blast
    with Some a dm show ?thesis by (simp add: unlinkChild_def)
  qed
  show ?thesis
    unfolding consistentLinks_def unlinkChild_links
    using unlinkChild_distinct [OF d] inj' ne' dm' by blast
qed

lemma consistentLinks_applyOps:
  assumes "consistentLinks st" and "oneToOneOps st ops"
  shows "consistentLinks (applyOps st ops)"
  using assms
proof (induction ops arbitrary: st)
  case Nil
  then show ?case by simp
next
  case (Cons x xs)
  show ?case
  proof (cases x)
    case (LinkChild ms a)
    with Cons.prems have "consistentLinks (linkChild st ms a)" "oneToOneOps (linkChild st ms a) xs"
      by (simp_all add: consistentLinks_linkChild)
    from Cons.IH [OF this] LinkChild show ?thesis by simp
  next
    case (UnlinkChild ms)
    with Cons.prems have "consistentLinks (unlinkChild st ms)" "oneToOneOps (unlinkChild st ms) xs"
      by (simp_all add: consistentLinks_unlinkChild)
    from Cons.IH [OF this] UnlinkChild show ?thesis by simp
  qed
qed

lemma consistentLinks_initialState: "consistentLinks initialState"
  by (simp add: consistentLinks_def initialState_def)

lemma consistentLinks_invariants:
  assumes "consistentLinks st"
  shows "linkedHaveState st \<and> noOrphanState st"
proof -
  let ?m = "map_of (childLinks st)"
  have d: "distinct (map fst (childLinks st))" and dm: "dom (quotaState st) = ran ?m"
    using assms by (simp_all add: consistentLinks_def)
  have "quotaState st a \<noteq> None" if "(ms, a) \<in> set (childLinks st)" for ms a
  proof -
    have "?m ms = Some a" using d that by simp
    then have "a \<in> ran ?m" by (auto simp: ran_def)
    with dm show ?thesis by auto
  qed
  then have l: "linkedHaveState st"
    by (auto simp: linkedHaveState_def)
  have "ran ?m \<subseteq> snd ` set (childLinks st)"
    by (auto simp: ran_def dest!: map_of_SomeD intro: rev_image_eqI)
  with dm have "noOrphanState st"
    by (simp add: noOrphanState_def)
  with l show ?thesis by simp
qed


text \<open>
  C7, as the code has it. linkChild always writes both the mapping and a zero entry under
  the allow2ChildId; unlinkChild always removes the mapping, and removes the entry of the
  allow2ChildId it was linked to when that id is not empty. In every state reached from
  the initial state by link and unlink requests whose links are one-to-one (the
  allow2ChildId is not empty and not linked from another msChildId, and the msChildId is
  not linked or already linked to that same allow2ChildId), every linked child has an
  entry and every entry belongs to a link.
\<close>

theorem C7_one_to_one_links_keep_state_in_step:
  "map_of (childLinks (linkChild st ms a)) ms = Some a
   \<and> quotaState (linkChild st ms a) a = Some zeroQuota
   \<and> map_of (childLinks (unlinkChild st ms)) ms = None
   \<and> (map_of (childLinks st) ms = Some a \<and> a \<noteq> [] \<longrightarrow> quotaState (unlinkChild st ms) a = None)
   \<and> (oneToOneOps initialState ops \<longrightarrow>
        linkedHaveState (applyOps initialState ops) \<and> noOrphanState (applyOps initialState ops))"
proof -
  have l1: "map_of (childLinks (linkChild st ms a)) ms = Some a"
    by (simp add: linkChild_links)
  have l2: "quotaState (linkChild st ms a) a = Some zeroQuota"
    by (simp add: linkChild_def)
  have u1: "map_of (childLinks (unlinkChild st ms)) ms = None"
    by (simp add: unlinkChild_links)
  have u2: "quotaState (unlinkChild st ms) a = None"
    if "map_of (childLinks st) ms = Some a" and "a \<noteq> []"
    using that by (simp add: unlinkChild_def)
  have reach: "linkedHaveState (applyOps initialState ops) \<and> noOrphanState (applyOps initialState ops)"
    if "oneToOneOps initialState ops"
    using consistentLinks_applyOps [OF consistentLinks_initialState that]
    by (rule consistentLinks_invariants)
  show ?thesis
    using l1 l2 u1 u2 reach by blast
qed

lemmas link_defs = linkChild_def unlinkChild_def oneToOneLink_def linkedHaveState_def
  noOrphanState_def initialState_def zeroQuota_def

theorem C7_witness:
  "oneToOneOps initialState [LinkChild ''ms1'' ''a1'', LinkChild ''ms2'' ''a2'', UnlinkChild ''ms1'']
   \<and> childLinks (applyOps initialState
        [LinkChild ''ms1'' ''a1'', LinkChild ''ms2'' ''a2'', UnlinkChild ''ms1'']) = [(''ms2'', ''a2'')]
   \<and> linkedHaveState (applyOps initialState
        [LinkChild ''ms1'' ''a1'', LinkChild ''ms2'' ''a2'', UnlinkChild ''ms1''])
   \<and> noOrphanState (applyOps initialState
        [LinkChild ''ms1'' ''a1'', LinkChild ''ms2'' ''a2'', UnlinkChild ''ms1''])
   \<and> quotaState (unlinkChild (linkChild initialState ''ms1'' ''a1'') ''ms1'') ''a1'' = None"
proof -
  let ?ops = "[LinkChild ''ms1'' ''a1'', LinkChild ''ms2'' ''a2'', UnlinkChild ''ms1'']"
  note c7 = C7_one_to_one_links_keep_state_in_step
    [of "linkChild initialState ''ms1'' ''a1''" "''ms1''" "''a1''" ?ops]
  have h: "oneToOneOps initialState ?ops"
    by (simp add: link_defs)
  have l: "childLinks (applyOps initialState ?ops) = [(''ms2'', ''a2'')]"
    by (simp add: link_defs)
  have g: "map_of (childLinks (linkChild initialState ''ms1'' ''a1'')) ''ms1'' = Some ''a1''
      \<and> ''a1'' \<noteq> []"
    by (simp add: link_defs)
  from c7 h have i: "linkedHaveState (applyOps initialState ?ops) \<and> noOrphanState (applyOps initialState ?ops)"
    by blast
  from c7 g have u: "quotaState (unlinkChild (linkChild initialState ''ms1'' ''a1'') ''ms1'') ''a1'' = None"
    by blast
  show ?thesis
    using h l i u by simp
qed

text \<open>
  Linking ms1 to a1 and then to a2 leaves the entry of a1 with no link to it. Linking ms1
  and ms2 both to a1 and unlinking ms1 removes the entry of a1 while ms2 is still linked
  to it.
\<close>

theorem C7_relink_and_shared_link_counterexample:
  "\<not> noOrphanState (applyOps initialState [LinkChild ''ms1'' ''a1'', LinkChild ''ms1'' ''a2''])
   \<and> \<not> linkedHaveState (applyOps initialState
          [LinkChild ''ms1'' ''a1'', LinkChild ''ms2'' ''a1'', UnlinkChild ''ms1''])"
  by (simp add: link_defs)

end
